theory Spec2Isabelle
  imports Main "HOL-Library.Sublist" "HOL-Library.AList"
    "HOL-Library.List_Lexorder" "HOL-Library.Char_ord"
begin

section \<open>promptgen: the versioned template store and the generation pipeline\<close>

text \<open>
  A shallow embedding of \<^verbatim>\<open>promptgen.go\<close>. Go strings are byte sequences, here
  \<^typ>\<open>string\<close>. The template directory \<^verbatim>\<open>~/.promptgen/templates\<close> is a finite
  table from base file names to file contents. Every command of the program is a function
  from the table, the command-line arguments and the outcome of the external capabilities
  (standard input, clipboard, editor) to a result and, for the commands that write, a new
  table.
\<close>

subsection \<open>Functions of the Go standard library\<close>

text \<open>\<^verbatim>\<open>strings.Contains(s, sub)\<close>.\<close>

fun strings_Contains :: "string \<Rightarrow> string \<Rightarrow> bool" where
  "strings_Contains [] sub = (sub = [])"
| "strings_Contains (c # cs) sub = (prefix sub (c # cs) \<or> strings_Contains cs sub)"

text \<open>\<^verbatim>\<open>strings.TrimSuffix(s, suf)\<close>.\<close>

definition strings_TrimSuffix :: "string \<Rightarrow> string \<Rightarrow> string" where
  "strings_TrimSuffix s suf =
     (if suffix suf s then take (length s - length suf) s else s)"

text \<open>
  \<^verbatim>\<open>strings.Split(s, "_v")\<close>: the pieces of \<open>s\<close> between the occurrences of the
  separator, found from left to right without overlap.
\<close>

fun Split_v :: "string \<Rightarrow> string list" where
  "Split_v [] = [[]]"
| "Split_v [c] = [[c]]"
| "Split_v (c # d # cs) =
     (if c = CHR ''_'' \<and> d = CHR ''v'' then [] # Split_v cs
      else (case Split_v (d # cs) of [] \<Rightarrow> [[c]] | p # ps \<Rightarrow> (c # p) # ps))"

text \<open>
  \<^verbatim>\<open>strings.ReplaceAll(s, "<input>", new)\<close>: every occurrence of the placeholder,
  found from left to right without overlap, is replaced by \<open>new\<close>.
\<close>

fun ReplaceAll_input :: "string \<Rightarrow> string \<Rightarrow> string" where
  "ReplaceAll_input [] new = []"
| "ReplaceAll_input (c # cs) new =
     (if prefix ''<input>'' (c # cs) then new @ ReplaceAll_input (drop 6 cs) new
      else c # ReplaceAll_input cs new)"

text \<open>
  \<^verbatim>\<open>strings.TrimSpace\<close> removes the leading and the trailing white space, as
  \<^verbatim>\<open>unicode.IsSpace\<close> defines it. The list holds the UTF-8 encodings of the 25 code
  points concerned: U+0009 to U+000D, U+0020, U+0085, U+00A0, U+1680, U+2000 to U+200A,
  U+2028, U+2029, U+202F, U+205F and U+3000. No other byte sequence decodes to one of
  them (an overlong encoding decodes to the error rune).
\<close>

definition space_runes :: "string list" where
  "space_runes =
     [[CHR 0x09], [CHR 0x0A], [CHR 0x0B], [CHR 0x0C], [CHR 0x0D], [CHR 0x20],
      [CHR 0xC2, CHR 0x85], [CHR 0xC2, CHR 0xA0], [CHR 0xE1, CHR 0x9A, CHR 0x80],
      [CHR 0xE2, CHR 0x80, CHR 0x80], [CHR 0xE2, CHR 0x80, CHR 0x81],
      [CHR 0xE2, CHR 0x80, CHR 0x82], [CHR 0xE2, CHR 0x80, CHR 0x83],
      [CHR 0xE2, CHR 0x80, CHR 0x84], [CHR 0xE2, CHR 0x80, CHR 0x85],
      [CHR 0xE2, CHR 0x80, CHR 0x86], [CHR 0xE2, CHR 0x80, CHR 0x87],
      [CHR 0xE2, CHR 0x80, CHR 0x88], [CHR 0xE2, CHR 0x80, CHR 0x89],
      [CHR 0xE2, CHR 0x80, CHR 0x8A], [CHR 0xE2, CHR 0x80, CHR 0xA8],
      [CHR 0xE2, CHR 0x80, CHR 0xA9], [CHR 0xE2, CHR 0x80, CHR 0xAF],
      [CHR 0xE2, CHR 0x81, CHR 0x9F], [CHR 0xE3, CHR 0x80, CHR 0x80]]"

text \<open>The number of bytes of the white-space rune a string starts (ends) with, 0 if none.\<close>

definition leading_space :: "string \<Rightarrow> nat" where
  "leading_space s = (case find (\<lambda>w. prefix w s) space_runes of None \<Rightarrow> 0 | Some w \<Rightarrow> length w)"

definition trailing_space :: "string \<Rightarrow> nat" where
  "trailing_space s = (case find (\<lambda>w. suffix w s) space_runes of None \<Rightarrow> 0 | Some w \<Rightarrow> length w)"

function TrimLeft_space :: "string \<Rightarrow> string" where
  "TrimLeft_space s =
     (if s = [] \<or> leading_space s = 0 then s else TrimLeft_space (drop (leading_space s) s))"
  by pat_completeness auto
termination
  by (relation "measure length") auto

function TrimRight_space :: "string \<Rightarrow> string" where
  "TrimRight_space s =
     (if s = [] \<or> trailing_space s = 0 then s
      else TrimRight_space (take (length s - trailing_space s) s))"
  by pat_completeness auto
termination
  by (relation "measure length") auto

definition strings_TrimSpace :: "string \<Rightarrow> string" where
  "strings_TrimSpace s = TrimRight_space (TrimLeft_space s)"

text \<open>\<^verbatim>\<open>fmt.Sprintf("%d", v)\<close>: the decimal digits of \<open>v\<close>, after a minus sign if negative.\<close>

definition digit_char :: "nat \<Rightarrow> char" where
  "digit_char d = char_of (48 + d)"

function fmt_nat :: "nat \<Rightarrow> string" where
  "fmt_nat n = (if n < 10 then [digit_char n] else fmt_nat (n div 10) @ [digit_char (n mod 10)])"
  by pat_completeness auto
termination
  by (relation "measure id") auto

definition fmt_d :: "int \<Rightarrow> string" where
  "fmt_d v = (if v < 0 then CHR ''-'' # fmt_nat (nat (- v)) else fmt_nat (nat v))"

text \<open>
  Go's \<^verbatim>\<open>int\<close> has 64 bits, and \<^verbatim>\<open>tpl.Version++\<close> wraps around at the largest
  value.
\<close>

definition int64_inc :: "int \<Rightarrow> int" where
  "int64_inc v = (if v = 2 ^ 63 - 1 then - (2 ^ 63) else v + 1)"

subsection \<open>The data model\<close>

record PromptTemplate =
  Name :: string
  Version :: int
  Template :: string

text \<open>
  The bytes of a file are represented by what \<^verbatim>\<open>encoding/json\<close> makes of them:
  \<open>JSON t\<close> is a document that \<^verbatim>\<open>json.Unmarshal\<close> decodes to \<open>t\<close>, and
  \<open>Bytes s\<close> is the content \<open>s\<close>, which it rejects.
\<close>

datatype file_data = JSON PromptTemplate | Bytes string

text \<open>
  The encoder writes a string rune by rune, as \<^verbatim>\<open>utf8.DecodeRuneInString\<close> reads it.
  \<open>rune_width\<close> is the number of bytes of the encoding at the head of a string, and 0
  where the decoder returns the error rune with width 1: a byte that can start no
  encoding, a second byte outside the range that the first one accepts, a later byte that
  is no continuation byte, or an encoding cut short by the end of the string.
\<close>

definition byte_in :: "char \<Rightarrow> nat \<Rightarrow> nat \<Rightarrow> bool" where
  "byte_in b lo hi = (lo \<le> of_char b \<and> of_char b \<le> hi)"

fun rune_width :: "string \<Rightarrow> nat" where
  "rune_width [] = 0"
| "rune_width (b0 # rest) =
     (if byte_in b0 0x00 0x7F then 1
      else if byte_in b0 0xC2 0xDF then
        (case rest of
           b1 # _ \<Rightarrow> if byte_in b1 0x80 0xBF then 2 else 0
         | _ \<Rightarrow> 0)
      else if byte_in b0 0xE0 0xEF then
        (case rest of
           b1 # b2 # _ \<Rightarrow>
             if byte_in b1 (if b0 = CHR 0xE0 then 0xA0 else 0x80)
                  (if b0 = CHR 0xED then 0x9F else 0xBF)
                \<and> byte_in b2 0x80 0xBF
             then 3 else 0
         | _ \<Rightarrow> 0)
      else if byte_in b0 0xF0 0xF4 then
        (case rest of
           b1 # b2 # b3 # _ \<Rightarrow>
             if byte_in b1 (if b0 = CHR 0xF0 then 0x90 else 0x80)
                  (if b0 = CHR 0xF4 then 0x8F else 0xBF)
                \<and> byte_in b2 0x80 0xBF \<and> byte_in b3 0x80 0xBF
             then 4 else 0
         | _ \<Rightarrow> 0)
      else 0)"

text \<open>
  The string that a document of the encoder decodes to: every byte that is part of no
  valid encoding is replaced by the replacement rune U+FFFD, and valid UTF-8 is left as it
  is (the escapes that the encoder writes decode to the bytes they stand for).
\<close>

function json_string :: "string \<Rightarrow> string" where
  "json_string s =
     (if s = [] then []
      else if rune_width s = 0 then [CHR 0xEF, CHR 0xBF, CHR 0xBD] @ json_string (tl s)
      else take (rune_width s) s @ json_string (drop (rune_width s) s))"
  by pat_completeness auto
termination
  by (relation "measure length") auto

text \<open>
  \<^verbatim>\<open>json.MarshalIndent\<close> of a template: a document that decodes to the template with
  its two strings coerced to valid UTF-8.
\<close>

definition json_MarshalIndent :: "PromptTemplate \<Rightarrow> file_data" where
  "json_MarshalIndent t =
     JSON (t\<lparr>Name := json_string (Name t), Template := json_string (Template t)\<rparr>)"

fun json_Unmarshal :: "file_data \<Rightarrow> PromptTemplate option" where
  "json_Unmarshal (JSON t) = Some t"
| "json_Unmarshal (Bytes s) = None"

text \<open>
  The template directory. \<open>files\<close> lists its regular files by base name, each name once;
  \<open>fails\<close> tells which system calls are refused (a missing permission, a full disk),
  so that every error branch of the program can be taken.
\<close>

datatype syscall =
  MkdirAll | ReadDir | Stat string | ReadFile string | WriteFile string | Remove string

record filesystem =
  files :: "(string \<times> file_data) list"
  fails :: "syscall \<Rightarrow> bool"

definition os_ReadFile :: "filesystem \<Rightarrow> string \<Rightarrow> file_data option" where
  "os_ReadFile fs p = (if fails fs (ReadFile p) then None else map_of (files fs) p)"

definition os_Stat :: "filesystem \<Rightarrow> string \<Rightarrow> bool" where
  "os_Stat fs p = (\<not> fails fs (Stat p) \<and> map_of (files fs) p \<noteq> None)"

definition os_WriteFile :: "filesystem \<Rightarrow> string \<Rightarrow> file_data \<Rightarrow> filesystem option" where
  "os_WriteFile fs p d =
     (if fails fs (WriteFile p) then None
      else Some (fs\<lparr>files := AList.update p d (files fs)\<rparr>))"

definition os_Remove :: "filesystem \<Rightarrow> string \<Rightarrow> filesystem option" where
  "os_Remove fs p =
     (if fails fs (Remove p) \<or> map_of (files fs) p = None then None
      else Some (fs\<lparr>files := AList.delete p (files fs)\<rparr>))"

text \<open>
  \<^verbatim>\<open>filepath.Glob\<close> on a pattern \<open>pre*suf\<close> of the template directory, where \<open>pre\<close>
  and \<open>suf\<close> hold no pattern character: the names that start with \<open>pre\<close> and go on
  with \<open>suf\<close> at their end, the star standing for any bytes but the path separator, in
  the sorted order of the directory listing. A directory that cannot be read gives no name
  and no error.
\<close>

definition glob_match :: "string \<Rightarrow> string \<Rightarrow> string \<Rightarrow> bool" where
  "glob_match pre suf f =
     (prefix pre f \<and> suffix suf (drop (length pre) f) \<and>
      CHR ''/'' \<notin> set (take (length f - length pre - length suf) (drop (length pre) f)))"

definition filepath_Glob :: "filesystem \<Rightarrow> string \<Rightarrow> string \<Rightarrow> string list" where
  "filepath_Glob fs pre suf =
     (if fails fs ReadDir then [] else filter (glob_match pre suf) (sort (map fst (files fs))))"

text \<open>
  A template name is joined to the directory as it is. The table holds base names, so the
  model is that of the program for the names without a path separator (\<open>flat_name\<close>),
  and its patterns are those of the program for the names that hold no pattern character
  either (\<open>plain_name\<close>).
\<close>

definition flat_name :: "string \<Rightarrow> bool" where
  "flat_name n = (CHR ''/'' \<notin> set n)"

definition plain_name :: "string \<Rightarrow> bool" where
  "plain_name n = (set n \<inter> set (''/*?['' @ [CHR 0x5C]) = {})"

subsection \<open>Helpers\<close>

definition getTemplatePath :: "string \<Rightarrow> string" where
  "getTemplatePath name = name @ ''.json''"

definition getTemplateVersionPath :: "string \<Rightarrow> int \<Rightarrow> string" where
  "getTemplateVersionPath name version = name @ ''_v'' @ fmt_d version @ ''.json''"

definition getHistoryPath :: string where
  "getHistoryPath = ''history.log''"

definition ensureTemplateDir :: "filesystem \<Rightarrow> bool" where
  "ensureTemplateDir fs = (\<not> fails fs MkdirAll)"

definition loadTemplate :: "filesystem \<Rightarrow> string \<Rightarrow> PromptTemplate option" where
  "loadTemplate fs name =
     (case os_ReadFile fs (getTemplatePath name) of
        None \<Rightarrow> None
      | Some data \<Rightarrow> json_Unmarshal data)"

definition loadTemplateVersion :: "filesystem \<Rightarrow> string \<Rightarrow> int \<Rightarrow> PromptTemplate option" where
  "loadTemplateVersion fs name version =
     (case os_ReadFile fs (getTemplateVersionPath name version) of
        None \<Rightarrow> None
      | Some data \<Rightarrow> json_Unmarshal data)"

subsection \<open>The commands of the store\<close>

text \<open>
  Each command returns the directory it leaves and a value that tells which of its messages
  it printed. \<open>line\<close> is the line read as the template name and \<open>content\<close> the
  outcome of \<^verbatim>\<open>io.ReadAll(os.Stdin)\<close>: \<open>Inl\<close> an error, \<open>Inr\<close> the bytes read.
  \<open>args\<close> is \<^verbatim>\<open>os.Args\<close>.
\<close>

datatype add_result =
    AddEmptyName
  | AddAlreadyExists
  | AddReadError string
  | AddDirError
  | AddVersionWriteError
  | AddSaved bool \<comment> \<open>"Template saved with version 1."; False after the warning that
      the pointer to the latest version could not be saved\<close>

definition addTemplate ::
  "filesystem \<Rightarrow> string \<Rightarrow> string + string \<Rightarrow> filesystem \<times> add_result" where
  "addTemplate fs line content =
     (let name = strings_TrimSpace line in
      if name = [] then (fs, AddEmptyName)
      else if os_Stat fs (getTemplatePath name) then (fs, AddAlreadyExists)
      else (case content of
          Inl e \<Rightarrow> (fs, AddReadError e)
        | Inr c \<Rightarrow>
            if \<not> ensureTemplateDir fs then (fs, AddDirError)
            else
              let tpl = \<lparr>Name = name, Version = 1, Template = c\<rparr>;
                  data = json_MarshalIndent tpl
              in (case os_WriteFile fs (getTemplateVersionPath name (Version tpl)) data of
                    None \<Rightarrow> (fs, AddVersionWriteError)
                  | Some fs1 \<Rightarrow>
                      (case os_WriteFile fs1 (getTemplatePath name) data of
                         None \<Rightarrow> (fs1, AddSaved False)
                       | Some fs2 \<Rightarrow> (fs2, AddSaved True)))))"

datatype list_result =
    ListDirError
  | NoTemplates
  | Templates "(string \<times> int) list" \<comment> \<open>the lines printed: name and version\<close>

definition listTemplates :: "filesystem \<Rightarrow> list_result" where
  "listTemplates fs =
     (if \<not> ensureTemplateDir fs then ListDirError
      else
        let found = filepath_Glob fs [] ''.json'' in
        if found = [] then NoTemplates
        else Templates (concat (map (\<lambda>base.
          if strings_Contains base ''_v'' then []
          else (case os_ReadFile fs base of
                  None \<Rightarrow> []
                | Some data \<Rightarrow>
                    (case json_Unmarshal data of
                       None \<Rightarrow> []
                     | Some t \<Rightarrow> [(Name t, Version t)]))) found)))"

text \<open>
  The loop of \<^verbatim>\<open>deleteTemplate\<close>: every file is removed in turn, and a file that
  cannot be removed is reported and left.
\<close>

fun remove_each :: "filesystem \<Rightarrow> string list \<Rightarrow> filesystem \<times> string list" where
  "remove_each fs [] = (fs, [])"
| "remove_each fs (f # rest) =
     (case os_Remove fs f of
        None \<Rightarrow> (let (fs', errs) = remove_each fs rest in (fs', f # errs))
      | Some fs1 \<Rightarrow> remove_each fs1 rest)"

datatype delete_result =
    DelUsage
  | DelDirError
  | DelNoSuchTemplate
  | Deleted "string list" \<comment> \<open>"Deleted template and all versions", after an error line for
      each of the files listed\<close>

definition deleteTemplate :: "filesystem \<Rightarrow> string list \<Rightarrow> filesystem \<times> delete_result" where
  "deleteTemplate fs args =
     (if length args < 3 then (fs, DelUsage)
      else
        let name = args ! 2 in
        if \<not> ensureTemplateDir fs then (fs, DelDirError)
        else
          let found = filepath_Glob fs name ''.json'' in
          if found = [] then (fs, DelNoSuchTemplate)
          else (let (fs', errs) = remove_each fs found in (fs', Deleted errs)))"

datatype update_result =
    UpdUsage
  | UpdNotFound
  | UpdReadError string
  | UpdDirError
  | UpdVersionWriteError
  | Updated int bool \<comment> \<open>"Template updated to version v"; False after the warning that
      the pointer to the latest version could not be updated\<close>

definition updateTemplate ::
  "filesystem \<Rightarrow> string list \<Rightarrow> string + string \<Rightarrow> filesystem \<times> update_result" where
  "updateTemplate fs args content =
     (if length args < 3 then (fs, UpdUsage)
      else
        let name = args ! 2 in
        (case loadTemplate fs name of
           None \<Rightarrow> (fs, UpdNotFound)
         | Some tpl0 \<Rightarrow>
             (case content of
                Inl e \<Rightarrow> (fs, UpdReadError e)
              | Inr c \<Rightarrow>
                  let tpl = tpl0\<lparr>Template := c, Version := int64_inc (Version tpl0)\<rparr>;
                      data = json_MarshalIndent tpl
                  in
                  if \<not> ensureTemplateDir fs then (fs, UpdDirError)
                  else (case os_WriteFile fs (getTemplateVersionPath name (Version tpl)) data of
                          None \<Rightarrow> (fs, UpdVersionWriteError)
                        | Some fs1 \<Rightarrow>
                            (case os_WriteFile fs1 (getTemplatePath name) data of
                               None \<Rightarrow> (fs1, Updated (Version tpl) False)
                             | Some fs2 \<Rightarrow> (fs2, Updated (Version tpl) True))))))"

datatype review_result = RevUsage | RevNotFound | Reviewed int string

definition reviewTemplate :: "filesystem \<Rightarrow> string list \<Rightarrow> review_result" where
  "reviewTemplate fs args =
     (if length args < 3 then RevUsage
      else (case loadTemplate fs (args ! 2) of
              None \<Rightarrow> RevNotFound
            | Some tpl \<Rightarrow> Reviewed (Version tpl) (Template tpl)))"

datatype history_result =
    NoHistory \<comment> \<open>"No history found."\<close>
  | HistoryError
  | History file_data \<comment> \<open>the content of the log, printed as it is\<close>

definition showHistory :: "filesystem \<Rightarrow> history_result" where
  "showHistory fs =
     (case map_of (files fs) getHistoryPath of
        None \<Rightarrow> NoHistory
      | Some data \<Rightarrow> if fails fs (ReadFile getHistoryPath) then HistoryError else History data)"

datatype versions_result =
    VerUsage
  | NoVersions
  | Versions "string list" \<comment> \<open>the version printed on each line\<close>

definition listVersions :: "filesystem \<Rightarrow> string list \<Rightarrow> versions_result" where
  "listVersions fs args =
     (if length args < 3 then VerUsage
      else
        let name = args ! 2;
            found = filepath_Glob fs (name @ ''_v'') ''.json''
        in
        if found = [] then NoVersions
        else Versions (concat (map (\<lambda>base.
          let verStr = strings_TrimSuffix base ''.json'';
              verParts = Split_v verStr
          in if length verParts \<noteq> 2 then [] else [verParts ! 1]) found)))"

subsection \<open>The template engine\<close>

text \<open>
  \<^verbatim>\<open>generatePrompt\<close> hands the content, with every placeholder turned into the
  action \<open>{{.Input}}\<close>, to \<^verbatim>\<open>text/template\<close>. The engine cuts a text at each left
  delimiter \<open>{{\<close>, the first one from the left. The part modelled here is
  \<^item> the texts whose every action is \<open>{{.Input}}\<close>: they parse to text nodes and field
    nodes, and execution writes the text nodes as they are and the value of the key
    \<open>Input\<close> of the data for each field node;
  \<^item> an action that starts with a third brace (\<open>UnexpectedBrace\<close>: a brace is no
    token of an action), and an action that no \<open>}}\<close> closes (\<open>UnclosedAction\<close>):
    both are errors of \<^verbatim>\<open>Parse\<close>.
  Any other action is left to the engine itself, a parameter of the model
  (\<open>full_Parse\<close>, \<open>full_Execute\<close>) about which nothing is assumed.
\<close>

datatype tmpl_node = TextNode string | InputField

datatype tmpl_error = UnclosedAction | UnexpectedBrace | EngineError string

datatype scan = Parsed "tmpl_node list" | Failed tmpl_error | OtherAction

definition text_node :: "string \<Rightarrow> tmpl_node list" where
  "text_node t = (if t = [] then [] else [TextNode t])"

text \<open>\<open>acc\<close> holds the bytes of the current text node, the last one first.\<close>

fun parse_text :: "string \<Rightarrow> string \<Rightarrow> scan" where
  "parse_text acc [] = Parsed (text_node (rev acc))"
| "parse_text acc [c] = Parsed (text_node (rev (c # acc)))"
| "parse_text acc (c # d # cs) =
     (if c = CHR ''{'' \<and> d = CHR ''{'' then
        (if prefix ''.Input}}'' cs then
           (case parse_text [] (drop 8 cs) of
              Parsed ns \<Rightarrow> Parsed (text_node (rev acc) @ InputField # ns)
            | r \<Rightarrow> r)
         else if prefix ''{'' cs then Failed UnexpectedBrace
         else if \<not> strings_Contains cs ''}}'' then Failed UnclosedAction
         else OtherAction)
      else parse_text (c # acc) (d # cs))"

record 't engine =
  full_Parse :: "string \<Rightarrow> string + 't"
  full_Execute :: "'t \<Rightarrow> string \<Rightarrow> string + string"

datatype 't tmpl = Nodes "tmpl_node list" | Other 't

definition template_Parse :: "'t engine \<Rightarrow> string \<Rightarrow> tmpl_error + 't tmpl" where
  "template_Parse eng text =
     (case parse_text [] text of
        Parsed ns \<Rightarrow> Inr (Nodes ns)
      | Failed e \<Rightarrow> Inl e
      | OtherAction \<Rightarrow>
          (case full_Parse eng text of
             Inl e \<Rightarrow> Inl (EngineError e)
           | Inr t \<Rightarrow> Inr (Other t)))"

fun exec_node :: "string \<Rightarrow> tmpl_node \<Rightarrow> string" where
  "exec_node input (TextNode t) = t"
| "exec_node input InputField = input"

definition template_Execute :: "'t engine \<Rightarrow> 't tmpl \<Rightarrow> string \<Rightarrow> string + string" where
  "template_Execute eng tm input =
     (case tm of
        Nodes ns \<Rightarrow> Inr (concat (map (exec_node input) ns))
      | Other t \<Rightarrow> full_Execute eng t input)"

subsection \<open>Generation\<close>

text \<open>
  The capabilities the program consumes, by their outcome in one run: what reading the
  clipboard returns (\<open>Inl\<close> an error), whether writing a text to it succeeds, whether
  the scratch file can be created, whether the editor runs and exits without error, and
  what reading the scratch file back returns.
\<close>

datatype io_error = ClipboardError | TempFileError | EditorRunError | ReadBackError

record capabilities =
  clipboard_ReadAll :: "io_error + string"
  clipboard_WriteAll :: "string \<Rightarrow> bool"
  ioutil_TempFile :: bool
  cmd_Run :: bool
  tempfile_ReadFile :: "io_error + string"

text \<open>The calls of the capabilities, in the order in which a run makes them.\<close>

datatype event = EditorCall | ClipboardRead | ClipboardWrite string

definition openEditorForInput :: "capabilities \<Rightarrow> string \<times> io_error option" where
  "openEditorForInput cap =
     (if \<not> ioutil_TempFile cap then ([], Some TempFileError)
      else if \<not> cmd_Run cap then ([], Some EditorRunError)
      else (case tempfile_ReadFile cap of
              Inl e \<Rightarrow> ([], Some e)
            | Inr content \<Rightarrow> (content, None)))"

datatype gen_error =
    GenUsage
  | GenLoadError
  | GenClipboardError
  | GenParseError tmpl_error
  | GenExecError string

datatype input_source = FromClipboard | FromArgument | FromEditor | FromClipboardFallback

text \<open>
  The block of \<^verbatim>\<open>generatePrompt\<close> that sets \<^verbatim>\<open>input\<close>. The test after the
  editor is \<^verbatim>\<open>err != nil || strings.TrimSpace(input) == ""\<close>, whose right operand is
  evaluated only when \<^verbatim>\<open>err\<close> is nil.
\<close>

definition resolve_input ::
  "capabilities \<Rightarrow> string list \<Rightarrow> event list \<times> (gen_error + string \<times> input_source)" where
  "resolve_input cap args =
     (if length args \<ge> 4 \<and> args ! 3 = ''--clip'' then
        (case clipboard_ReadAll cap of
           Inl e \<Rightarrow> ([ClipboardRead], Inl GenClipboardError)
         | Inr input \<Rightarrow> ([ClipboardRead], Inr (input, FromClipboard)))
      else if length args \<ge> 4 then ([], Inr (args ! 3, FromArgument))
      else
        (case openEditorForInput cap of
           (input, err) \<Rightarrow>
             if (case err of Some e \<Rightarrow> True | None \<Rightarrow> strings_TrimSpace input = []) then
               (case clipboard_ReadAll cap of
                  Inl e \<Rightarrow> ([EditorCall, ClipboardRead], Inl GenClipboardError)
                | Inr input' \<Rightarrow> ([EditorCall, ClipboardRead], Inr (input', FromClipboardFallback)))
             else ([EditorCall], Inr (input, FromEditor))))"

record generated =
  prompt :: string
  from_version :: int
  source :: input_source
  copied :: bool

definition generatePrompt ::
  "'t engine \<Rightarrow> capabilities \<Rightarrow> filesystem \<Rightarrow> string list \<Rightarrow>
     event list \<times> (gen_error + generated)" where
  "generatePrompt eng cap fs args =
     (if length args < 3 then ([], Inl GenUsage)
      else (case loadTemplate fs (args ! 2) of
          None \<Rightarrow> ([], Inl GenLoadError)
        | Some tpl \<Rightarrow>
            (case resolve_input cap args of
               (evs, Inl e) \<Rightarrow> (evs, Inl e)
             | (evs, Inr (input, src)) \<Rightarrow>
                 let normalizedTpl = ReplaceAll_input (Template tpl) ''{{.Input}}'' in
                 (case template_Parse eng normalizedTpl of
                    Inl e \<Rightarrow> (evs, Inl (GenParseError e))
                  | Inr tmpl \<Rightarrow>
                      (case template_Execute eng tmpl input of
                         Inl e \<Rightarrow> (evs, Inl (GenExecError e))
                       | Inr promptStr \<Rightarrow>
                           (evs @ [ClipboardWrite promptStr],
                            Inr \<lparr>prompt = promptStr, from_version = Version tpl,
                                 source = src,
                                 copied = clipboard_WriteAll cap promptStr\<rparr>))))))"

subsection \<open>One run of the program\<close>

text \<open>
  The directory that a run of \<^verbatim>\<open>main\<close> leaves. Only \<^verbatim>\<open>add\<close>, \<^verbatim>\<open>delete\<close> and
  \<^verbatim>\<open>update\<close> call a function that writes or removes a file of the directory; the
  other commands (list, generate, review, completion, history, versions, view) and the
  usage message leave it as it is.
\<close>

definition main :: "filesystem \<Rightarrow> string \<Rightarrow> string + string \<Rightarrow> string list \<Rightarrow> filesystem" where
  "main fs line content args =
     (if length args < 2 then fs
      else
        let cmd = args ! 1 in
        if cmd = ''add'' then fst (addTemplate fs line content)
        else if cmd = ''delete'' then fst (deleteTemplate fs args)
        else if cmd = ''update'' then fst (updateTemplate fs args content)
        else fs)"

text \<open>
  A sequence of runs of \<^verbatim>\<open>update\<close> on one name, one for each content of the list,
  every one of which answers that the template is updated, without the warning about the
  pointer; \<open>None\<close> when one of them answers otherwise.
\<close>

fun update_each :: "filesystem \<Rightarrow> string \<Rightarrow> string list \<Rightarrow> filesystem option" where
  "update_each fs name [] = Some fs"
| "update_each fs name (c # cs) =
     (case updateTemplate fs [''promptgen'', ''update'', name] (Inr c) of
        (fs', Updated v True) \<Rightarrow> update_each fs' name cs
      | _ \<Rightarrow> None)"

subsection \<open>Values for the instances\<close>

text \<open>A directory with the given files on which no system call fails.\<close>

definition store :: "(string \<times> file_data) list \<Rightarrow> filesystem" where
  "store fl = \<lparr>files = fl, fails = (\<lambda>c. False)\<rparr>"

text \<open>An engine that is never reached by the texts of the modelled part.\<close>

definition no_engine :: "unit engine" where
  "no_engine =
     \<lparr>full_Parse = (\<lambda>text. Inl ''unsupported''),
      full_Execute = (\<lambda>t input. Inl ''unsupported'')\<rparr>"

text \<open>An editor that leaves a blank, a tab and a newline, and a clipboard that cannot be read.\<close>

definition blank_editor_no_clipboard :: capabilities where
  "blank_editor_no_clipboard =
     \<lparr>clipboard_ReadAll = Inl ClipboardError, clipboard_WriteAll = (\<lambda>text. True),
      ioutil_TempFile = True, cmd_Run = True,
      tempfile_ReadFile = Inr [CHR 0x20, CHR 0x09, CHR 0x0A]\<rparr>"

text \<open>An editor that cannot be started and a clipboard that holds a text.\<close>

definition no_editor_full_clipboard :: capabilities where
  "no_editor_full_clipboard =
     \<lparr>clipboard_ReadAll = Inr ''from the clipboard'', clipboard_WriteAll = (\<lambda>text. True),
      ioutil_TempFile = True, cmd_Run = False,
      tempfile_ReadFile = Inl ReadBackError\<rparr>"

definition sum_v1 :: PromptTemplate where
  "sum_v1 = \<lparr>Name = ''sum'', Version = 1, Template = ''Q: <input>''\<rparr>"


definition todo_v1 :: PromptTemplate where
  "todo_v1 = \<lparr>Name = ''todo'', Version = 1, Template = ''<input> {{ TODO''\<rparr>"


definition wrap_v1 :: PromptTemplate where
  "wrap_v1 = \<lparr>Name = ''wrap'', Version = 1, Template = ''{<input>}''\<rparr>"

definition brief_v1 :: PromptTemplate where
  "brief_v1 =
     \<lparr>Name = ''brief'', Version = 1, Template = ''Summarize:'' @ [CHR 0x0A] @ ''<input>''\<rparr>"

definition summary_v1 :: PromptTemplate where
  "summary_v1 = \<lparr>Name = ''summary'', Version = 1, Template = ''Summarize: <input>''\<rparr>"

text \<open>The directory after \<^verbatim>\<open>add\<close> of \<open>sum\<close> and of \<open>summary\<close>.\<close>

definition two_templates :: filesystem where
  "two_templates =
     store [(''sum_v1.json'', JSON sum_v1), (''sum.json'', JSON sum_v1),
            (''summary_v1.json'', JSON summary_v1), (''summary.json'', JSON summary_v1)]"

text \<open>The directory after \<^verbatim>\<open>add\<close> of \<open>my_video\<close> to an empty one.\<close>

definition video_store :: filesystem where
  "video_store = fst (addTemplate (store []) ''my_video'' (Inr ''Describe: <input>''))"

text \<open>The directory after \<^verbatim>\<open>add\<close> of \<open>sum\<close> to an empty one.\<close>

definition sum_store :: filesystem where
  "sum_store = store [(''sum_v1.json'', JSON sum_v1), (''sum.json'', JSON sum_v1)]"

text \<open>A version record of \<open>sum\<close> without the pointer to the latest version.\<close>

definition orphan_version :: filesystem where
  "orphan_version = store [(''sum_v1.json'', JSON sum_v1)]"

text \<open>A pointer at version 1 beside a record of version 2, and a history log.\<close>

definition stale_pointer :: filesystem where
  "stale_pointer =
     store [(''history.log'', Bytes ''sum 1''), (''sum.json'', JSON sum_v1),
            (''sum_v1.json'', JSON sum_v1),
            (''sum_v2.json'', JSON \<lparr>Name = ''sum'', Version = 2, Template = ''Q2: <input>''\<rparr>)]"

section \<open>Properties\<close>

declare TrimLeft_space.simps [simp del]
declare TrimRight_space.simps [simp del]
declare fmt_nat.simps [simp del]
declare json_string.simps [simp del]

subsection \<open>Input resolution\<close>

text \<open>
  Claim C5. When \<^verbatim>\<open>generate\<close> is given an inline text (a fourth argument, which is
  not the flag \<open>--clip\<close> that asks for the clipboard), that text is the resolved input as
  it is, and the run neither calls the editor nor reads the clipboard. (The only call of a
  capability in such a run is the delivery of the rendered prompt to the clipboard.)
\<close>

theorem inline_text_used_verbatim:
  assumes "length args \<ge> 4" and "args ! 3 \<noteq> ''--clip''"
  shows "resolve_input cap args = ([], Inr (args ! 3, FromArgument))
       \<and> EditorCall \<notin> set (fst (generatePrompt eng cap fs args))
       \<and> ClipboardRead \<notin> set (fst (generatePrompt eng cap fs args))"
proof -
  have r: "resolve_input cap args = ([], Inr (args ! 3, FromArgument))"
    using assms by (simp add: resolve_input_def)
  show ?thesis
    using r by (auto simp: generatePrompt_def Let_def split: option.splits sum.splits)
qed

theorem inline_text_used_verbatim_witness:
  "length [''promptgen'', ''generate'', ''sum'', ''hello''] \<ge> 4
   \<and> [''promptgen'', ''generate'', ''sum'', ''hello''] ! 3 \<noteq> ''--clip''
   \<and> resolve_input no_editor_full_clipboard [''promptgen'', ''generate'', ''sum'', ''hello'']
       = ([], Inr (''hello'', FromArgument))
   \<and> EditorCall \<notin> set (fst (generatePrompt no_engine no_editor_full_clipboard
         (store [(''sum.json'', JSON sum_v1)]) [''promptgen'', ''generate'', ''sum'', ''hello'']))
   \<and> ClipboardRead \<notin> set (fst (generatePrompt no_engine no_editor_full_clipboard
         (store [(''sum.json'', JSON sum_v1)]) [''promptgen'', ''generate'', ''sum'', ''hello'']))"
proof -
  let ?args = "[''promptgen'', ''generate'', ''sum'', ''hello'']"
  have h1: "length ?args \<ge> 4" by simp
  have h2: "?args ! 3 \<noteq> ''--clip''" by simp
  from inline_text_used_verbatim [OF h1 h2, of no_editor_full_clipboard no_engine
      "store [(''sum.json'', JSON sum_v1)]"] h1 h2
  show ?thesis by simp
qed

text \<open>
  Claim C8. In a run of \<^verbatim>\<open>generate\<close> with neither an inline text nor the clipboard
  flag, on a template that loads: if the editor fails or returns white space only, the
  clipboard is read and its text is the input; if the clipboard cannot be read either, the
  generation fails with the error of the unavailable input.
\<close>

theorem editor_fallback_to_clipboard:
  assumes "length args = 3"
      and "loadTemplate fs (args ! 2) = Some tpl"
      and "openEditorForInput cap = (input, err)"
      and "err \<noteq> None \<or> strings_TrimSpace input = []"
  shows "resolve_input cap args =
           ([EditorCall, ClipboardRead],
            (case clipboard_ReadAll cap of
               Inl e \<Rightarrow> Inl GenClipboardError
             | Inr text \<Rightarrow> Inr (text, FromClipboardFallback)))
       \<and> (isl (clipboard_ReadAll cap) \<longrightarrow>
            generatePrompt eng cap fs args = ([EditorCall, ClipboardRead], Inl GenClipboardError))"
  using assms
  by (auto simp: resolve_input_def generatePrompt_def split: sum.splits option.splits)

theorem editor_fallback_to_clipboard_witness:
  "length [''promptgen'', ''generate'', ''sum''] = 3
   \<and> loadTemplate (store [(''sum.json'', JSON sum_v1)]) ([''promptgen'', ''generate'', ''sum''] ! 2)
       = Some sum_v1
   \<and> openEditorForInput blank_editor_no_clipboard = ([CHR 0x20, CHR 0x09, CHR 0x0A], None)
   \<and> strings_TrimSpace [CHR 0x20, CHR 0x09, CHR 0x0A] = []
   \<and> isl (clipboard_ReadAll blank_editor_no_clipboard)
   \<and> generatePrompt no_engine blank_editor_no_clipboard (store [(''sum.json'', JSON sum_v1)])
        [''promptgen'', ''generate'', ''sum''] = ([EditorCall, ClipboardRead], Inl GenClipboardError)"
proof -
  let ?args = "[''promptgen'', ''generate'', ''sum'']"
  let ?fs = "store [(''sum.json'', JSON sum_v1)]"
  have h1: "length ?args = 3" by simp
  have h2: "loadTemplate ?fs (?args ! 2) = Some sum_v1" by code_simp
  have h3: "openEditorForInput blank_editor_no_clipboard = ([CHR 0x20, CHR 0x09, CHR 0x0A], None)"
    by code_simp
  have h4: "strings_TrimSpace [CHR 0x20, CHR 0x09, CHR 0x0A] = []" by code_simp
  have h5: "isl (clipboard_ReadAll blank_editor_no_clipboard)" by code_simp
  have h6: "None \<noteq> None \<or> strings_TrimSpace [CHR 0x20, CHR 0x09, CHR 0x0A] = []"
    using h4 by simp
  from editor_fallback_to_clipboard [OF h1 h2 h3 h6, of no_engine] h1 h2 h3 h4 h5
  show ?thesis by blast
qed

subsection \<open>Files and paths\<close>

lemma version_path_neq_latest: "getTemplateVersionPath n v \<noteq> getTemplatePath n"
  by (simp add: getTemplateVersionPath_def getTemplatePath_def)

lemma json_path_not_history: "suffix ''.json'' p \<Longrightarrow> p \<noteq> getHistoryPath"
proof
  assume a: "suffix ''.json'' p" and b: "p = getHistoryPath"
  have "\<not> suffix ''.json'' getHistoryPath" by code_simp
  with a b show False by simp
qed

lemma latest_path_not_history: "getTemplatePath n \<noteq> getHistoryPath"
  unfolding getTemplatePath_def
  by (rule json_path_not_history, rule suffixI [where zs = n]) simp

lemma version_path_not_history: "getTemplateVersionPath n v \<noteq> getHistoryPath"
  unfolding getTemplateVersionPath_def
  by (rule json_path_not_history, rule suffixI [where zs = "n @ ''_v'' @ fmt_d v"]) simp

lemma glob_member: "f \<in> set (filepath_Glob fs pre suf) \<Longrightarrow> glob_match pre suf f"
  by (auto simp: filepath_Glob_def split: if_splits)

lemma glob_match_suffix: "glob_match pre suf f \<Longrightarrow> suffix suf f"
  unfolding glob_match_def using suffix_drop suffix_order.trans by blast

lemma remove_each_other:
  "k \<notin> set fl \<Longrightarrow> map_of (files (fst (remove_each fs fl))) k = map_of (files fs) k"
proof (induction fl arbitrary: fs)
  case Nil
  then show ?case by simp
next
  case (Cons f rest)
  then have k: "k \<noteq> f" "k \<notin> set rest" by auto
  show ?case
  proof (cases "os_Remove fs f")
    case None
    then show ?thesis
      using Cons.IH [OF k(2), of fs] by (cases "remove_each fs rest") simp
  next
    case (Some fs1)
    then have "map_of (files fs1) k = map_of (files fs) k"
      using k(1) by (auto simp: os_Remove_def delete_conv' split: if_splits)
    then show ?thesis
      using Some Cons.IH [OF k(2), of fs1] by simp
  qed
qed








text \<open>
  A byte that is no valid encoding is stored as the replacement rune; valid UTF-8 is
  stored as it is.
\<close>

lemma json_string_invalid_byte:
  "json_string (''caf'' @ [CHR 0xE9]) = ''caf'' @ [CHR 0xEF, CHR 0xBF, CHR 0xBD]
   \<and> json_string (''caf'' @ [CHR 0xC3, CHR 0xA9]) = ''caf'' @ [CHR 0xC3, CHR 0xA9]"
  by code_simp

text \<open>
  What \<^verbatim>\<open>add\<close> leaves when the pointer is not there and the directory can be
  written, and what \<^verbatim>\<open>update\<close> leaves when the pointer is there: the answer of
  success, and the directory with the same document under the two paths.
\<close>

lemma add_saves:
  assumes "strings_TrimSpace line = n" and "n \<noteq> []"
      and "map_of (files fs) (getTemplatePath n) = None"
      and "\<not> fails fs MkdirAll"
      and "\<not> fails fs (WriteFile (getTemplateVersionPath n 1))"
      and "\<not> fails fs (WriteFile (getTemplatePath n))"
  shows "snd (addTemplate fs line (Inr c)) = AddSaved True"
    and "map_of (files (fst (addTemplate fs line (Inr c)))) =
           (map_of (files fs))
             (getTemplateVersionPath n 1 \<mapsto> json_MarshalIndent \<lparr>Name = n, Version = 1, Template = c\<rparr>,
              getTemplatePath n \<mapsto> json_MarshalIndent \<lparr>Name = n, Version = 1, Template = c\<rparr>)"
    and "fails (fst (addTemplate fs line (Inr c))) = fails fs"
proof -
  have st: "\<not> os_Stat fs (getTemplatePath n)"
    using assms(3) by (simp add: os_Stat_def)
  let ?d = "json_MarshalIndent \<lparr>Name = n, Version = 1, Template = c\<rparr>"
  let ?fs1 = "fs\<lparr>files := AList.update (getTemplateVersionPath n 1) ?d (files fs)\<rparr>"
  let ?fs2 = "?fs1\<lparr>files := AList.update (getTemplatePath n) ?d (files ?fs1)\<rparr>"
  have a: "addTemplate fs line (Inr c) = (?fs2, AddSaved True)"
    using assms st
    by (simp add: addTemplate_def Let_def ensureTemplateDir_def os_WriteFile_def)
  show "snd (addTemplate fs line (Inr c)) = AddSaved True"
    using a by simp
  show "map_of (files (fst (addTemplate fs line (Inr c)))) =
           (map_of (files fs)) (getTemplateVersionPath n 1 \<mapsto> ?d, getTemplatePath n \<mapsto> ?d)"
    using a by (simp add: update_conv')
  show "fails (fst (addTemplate fs line (Inr c))) = fails fs"
    using a by simp
qed


subsection \<open>Existence of a template\<close>

text \<open>
  Claim C10. A template \<open>n\<close> exists for the program when the pointer to its latest
  version is there, whatever version records there are: in a directory without the file
  of the pointer, \<^verbatim>\<open>generate\<close>, \<^verbatim>\<open>update\<close> and \<^verbatim>\<open>review\<close> of \<open>n\<close> end with
  their message that the template is not found, and \<^verbatim>\<open>add\<close> of \<open>n\<close> (when the
  directory can be written) does not answer that the template exists: it saves a new
  version 1, in the version record and in the pointer. What is saved is the document
  of the encoder: the name and the content as valid UTF-8.
\<close>

theorem existence_is_latest_pointer:
  assumes "flat_name n"
      and "map_of (files fs) (getTemplatePath n) = None"
      and "length args \<ge> 3" and "args ! 2 = n"
      and "strings_TrimSpace line = n" and "n \<noteq> []"
      and "\<not> fails fs MkdirAll"
      and "\<not> fails fs (WriteFile (getTemplateVersionPath n 1))"
      and "\<not> fails fs (WriteFile (getTemplatePath n))"
  shows "generatePrompt eng cap fs args = ([], Inl GenLoadError)
       \<and> updateTemplate fs args content = (fs, UpdNotFound)
       \<and> reviewTemplate fs args = RevNotFound
       \<and> snd (addTemplate fs line (Inr c)) = AddSaved True
       \<and> map_of (files (fst (addTemplate fs line (Inr c)))) (getTemplateVersionPath n 1)
            = Some (JSON \<lparr>Name = json_string n, Version = 1, Template = json_string c\<rparr>)
       \<and> map_of (files (fst (addTemplate fs line (Inr c)))) (getTemplatePath n)
            = Some (JSON \<lparr>Name = json_string n, Version = 1, Template = json_string c\<rparr>)"
proof -
  have ld: "loadTemplate fs n = None"
    using assms(2) by (simp add: loadTemplate_def os_ReadFile_def)
  have g: "generatePrompt eng cap fs args = ([], Inl GenLoadError)"
    using assms(3,4) ld by (simp add: generatePrompt_def)
  have u: "updateTemplate fs args content = (fs, UpdNotFound)"
    using assms(3,4) ld by (simp add: updateTemplate_def)
  have r: "reviewTemplate fs args = RevNotFound"
    using assms(3,4) ld by (simp add: reviewTemplate_def)
  note a = add_saves [OF assms(5,6,2,7,8,9), of c]
  have d: "json_MarshalIndent \<lparr>Name = n, Version = 1, Template = c\<rparr>
      = JSON \<lparr>Name = json_string n, Version = 1, Template = json_string c\<rparr>"
    by (simp add: json_MarshalIndent_def)
  show ?thesis
    using g u r a(1) by (simp add: a(2) d version_path_neq_latest)
qed

theorem existence_is_latest_pointer_witness:
  "flat_name ''sum''
   \<and> map_of (files orphan_version) (getTemplateVersionPath ''sum'' 1) = Some (JSON sum_v1)
   \<and> map_of (files orphan_version) (getTemplatePath ''sum'') = None
   \<and> strings_TrimSpace (''sum'' @ [CHR 0x0A]) = ''sum''
   \<and> generatePrompt no_engine no_editor_full_clipboard orphan_version
        [''promptgen'', ''generate'', ''sum''] = ([], Inl GenLoadError)
   \<and> updateTemplate orphan_version [''promptgen'', ''generate'', ''sum''] (Inr ''Q2: <input>'')
        = (orphan_version, UpdNotFound)
   \<and> reviewTemplate orphan_version [''promptgen'', ''generate'', ''sum''] = RevNotFound
   \<and> snd (addTemplate orphan_version (''sum'' @ [CHR 0x0A]) (Inr ''New: <input>'')) = AddSaved True
   \<and> map_of (files (fst (addTemplate orphan_version (''sum'' @ [CHR 0x0A]) (Inr ''New: <input>''))))
        (getTemplateVersionPath ''sum'' 1)
        = Some (JSON \<lparr>Name = ''sum'', Version = 1, Template = ''New: <input>''\<rparr>)"
proof -
  let ?args = "[''promptgen'', ''generate'', ''sum'']"
  have h1: "flat_name ''sum''" by code_simp
  have h2: "map_of (files orphan_version) (getTemplatePath ''sum'') = None" by code_simp
  have h3: "length ?args \<ge> 3" by simp
  have h4: "?args ! 2 = ''sum''" by simp
  have h5: "strings_TrimSpace (''sum'' @ [CHR 0x0A]) = ''sum''" by code_simp
  have h6: "''sum'' \<noteq> []" by simp
  have h7: "\<not> fails orphan_version MkdirAll" by code_simp
  have h8: "\<not> fails orphan_version (WriteFile (getTemplateVersionPath ''sum'' 1))" by code_simp
  have h9: "\<not> fails orphan_version (WriteFile (getTemplatePath ''sum''))" by code_simp
  have h0: "map_of (files orphan_version) (getTemplateVersionPath ''sum'' 1) = Some (JSON sum_v1)"
    by code_simp
  have j1: "json_string ''sum'' = ''sum''" by code_simp
  have j2: "json_string ''New: <input>'' = ''New: <input>''" by code_simp
  from existence_is_latest_pointer [OF h1 h2 h3 h4 h5 h6 h7 h8 h9,
      of no_engine no_editor_full_clipboard "Inr ''Q2: <input>''" "''New: <input>''"]
    h0 h1 h2 h5 j1 j2
  show ?thesis by simp
qed

subsection \<open>The write of a version record\<close>




subsection \<open>The history log\<close>

text \<open>
  Claim C1: every successful generation appends one entry, with the name of the template
  and the version used, to the history log, and no operation removes an entry. The program
  has the path of the log (\<^verbatim>\<open>getHistoryPath\<close>) and the command \<^verbatim>\<open>history\<close>
  that prints it (\<^verbatim>\<open>showHistory\<close>), but \<^verbatim>\<open>generatePrompt\<close> does not write to it, and
  no other function does. Here \<^verbatim>\<open>generate\<close> renders the prompt of \<open>sum\<close> from
  version 1 and copies it, the run leaves the directory as it was, and \<^verbatim>\<open>history\<close>
  after it finds no log. In a directory with a log, the log after the generation is the
  one before it, without a new entry.
\<close>

theorem generation_appends_no_history:
  "generatePrompt no_engine no_editor_full_clipboard sum_store
        [''promptgen'', ''generate'', ''sum'', ''x'']
     = ([ClipboardWrite ''Q: x''],
        Inr \<lparr>prompt = ''Q: x'', from_version = 1, source = FromArgument, copied = True\<rparr>)
   \<and> files (main sum_store [] (Inr []) [''promptgen'', ''generate'', ''sum'', ''x''])
     = files sum_store
   \<and> showHistory (main sum_store [] (Inr []) [''promptgen'', ''generate'', ''sum'', ''x''])
     = NoHistory
   \<and> snd (generatePrompt no_engine no_editor_full_clipboard stale_pointer
             [''promptgen'', ''generate'', ''sum'', ''x''])
     = Inr \<lparr>prompt = ''Q: x'', from_version = 1, source = FromArgument, copied = True\<rparr>
   \<and> showHistory stale_pointer = History (Bytes ''sum 1'')
   \<and> showHistory (main stale_pointer [] (Inr []) [''promptgen'', ''generate'', ''sum'', ''x''])
     = History (Bytes ''sum 1'')"
  by code_simp

text \<open>
  The rest of the program and the log: \<^verbatim>\<open>add\<close>, \<^verbatim>\<open>update\<close> and \<^verbatim>\<open>delete\<close>, the
  three commands that change the directory, write and remove files whose names end in
  \<open>.json\<close> only.
\<close>

lemma add_keeps_history:
  "map_of (files (fst (addTemplate fs line content))) getHistoryPath
     = map_of (files fs) getHistoryPath"
  using latest_path_not_history version_path_not_history
    latest_path_not_history [THEN not_sym] version_path_not_history [THEN not_sym]
  by (auto simp: addTemplate_def Let_def os_WriteFile_def update_conv'
        split: sum.splits option.splits if_splits)

lemma update_keeps_history:
  "map_of (files (fst (updateTemplate fs args content))) getHistoryPath
     = map_of (files fs) getHistoryPath"
  using latest_path_not_history version_path_not_history
    latest_path_not_history [THEN not_sym] version_path_not_history [THEN not_sym]
  by (auto simp: updateTemplate_def Let_def os_WriteFile_def update_conv'
        split: sum.splits option.splits if_splits)

lemma delete_keeps_history:
  "map_of (files (fst (deleteTemplate fs args))) getHistoryPath
     = map_of (files fs) getHistoryPath"
proof -
  have "getHistoryPath \<notin> set (filepath_Glob fs n ''.json'')" for n
    using glob_member glob_match_suffix json_path_not_history by blast
  then have "map_of (files (fst (remove_each fs (filepath_Glob fs n ''.json'')))) getHistoryPath
      = map_of (files fs) getHistoryPath" for n
    by (rule remove_each_other)
  then show ?thesis
    by (simp add: deleteTemplate_def Let_def split_beta)
qed

text \<open>
  So no run of the program changes the log, and \<^verbatim>\<open>history\<close> prints after a run what
  it printed before, when reading the log does not fail. (The names given to the commands
  are taken without a path separator or a pattern character.)
\<close>

lemma history_log_untouched:
  assumes "length args \<ge> 3 \<longrightarrow> plain_name (args ! 2)"
      and "plain_name (strings_TrimSpace line)"
  shows "map_of (files (main fs line content args)) getHistoryPath
           = map_of (files fs) getHistoryPath"
  by (simp add: main_def Let_def add_keeps_history update_keeps_history delete_keeps_history)

lemma history_log_after_delete:
  "map_of (files stale_pointer) getHistoryPath = Some (Bytes ''sum 1'')
   \<and> map_of (files (main stale_pointer [] (Inr []) [''promptgen'', ''delete'', ''sum'']))
        (getTemplatePath ''sum'') = None
   \<and> map_of (files (main stale_pointer [] (Inr []) [''promptgen'', ''delete'', ''sum'']))
        getHistoryPath = Some (Bytes ''sum 1'')"
  by code_simp

subsection \<open>Substitution of the placeholder\<close>

text \<open>
  Claim C7, as stated: for every content and every input, the rendering is the content
  with each placeholder replaced by the input as it is. The content is a text for the
  template engine (\<^verbatim>\<open>generatePrompt\<close> turns the placeholder into an action of the
  engine and parses the result), so a left delimiter in the content opens an action. The
  content \<open><input> {{ TODO\<close> with the input \<open>x\<close> is not rendered to
  \<open>x {{ TODO\<close>: the generation ends with the error of the parser.
\<close>

theorem unclosed_action_not_rendered:
  "ReplaceAll_input (Template todo_v1) ''x'' = ''x {{ TODO''
   \<and> generatePrompt no_engine no_editor_full_clipboard (store [(''todo.json'', JSON todo_v1)])
        [''promptgen'', ''generate'', ''todo'', ''x''] = ([], Inl (GenParseError UnclosedAction))"
  by code_simp

text \<open>
  A brace just before a placeholder makes, with the two braces of the action, a left
  delimiter followed by a brace, which the parser refuses as well.
\<close>

lemma brace_before_placeholder_fails:
  "ReplaceAll_input (Template wrap_v1) ''x'' = ''{x}''
   \<and> generatePrompt no_engine no_editor_full_clipboard (store [(''wrap.json'', JSON wrap_v1)])
        [''promptgen'', ''generate'', ''wrap'', ''x''] = ([], Inl (GenParseError UnexpectedBrace))"
  by code_simp

lemma Contains_iff_sublist: "strings_Contains s sub \<longleftrightarrow> sublist sub s"
  by (induction s) (auto simp: sublist_Cons_right)

lemma Contains_prefix: "prefix sub s \<Longrightarrow> strings_Contains s sub"
  by (cases s) auto

lemma Contains_drop: "strings_Contains (drop k s) sub \<Longrightarrow> strings_Contains s sub"
  unfolding Contains_iff_sublist
  by (meson sublist_drop sublist_order.order_trans)

lemma Replace_Nil_iff: "new \<noteq> [] \<Longrightarrow> ReplaceAll_input c new = [] \<longleftrightarrow> c = []"
  by (cases c) auto

lemma exec_text_node: "concat (map (exec_node input) (text_node t)) = t"
  by (simp add: text_node_def)

text \<open>
  The parser on a content in which the only left delimiters are those of the actions put
  in for the placeholders: it returns nodes, and their execution is the text read so far
  followed by the content with the input in the place of each placeholder.
\<close>

lemma parse_plain_content:
  assumes "\<not> strings_Contains c ''{{''" and "\<not> strings_Contains c ''{<input>''"
  shows "\<exists>ns. parse_text acc (ReplaceAll_input c ''{{.Input}}'') = Parsed ns
           \<and> concat (map (exec_node input) ns) = rev acc @ ReplaceAll_input c input"
  using assms
proof (induction "length c" arbitrary: c acc rule: less_induct)
  case less
  show ?case
  proof (cases c)
    case Nil
    then show ?thesis by (simp add: exec_text_node)
  next
    case (Cons x cs)
    show ?thesis
    proof (cases "prefix ''<input>'' (x # cs)")
      case True
      have d: "drop 6 cs = drop 7 c" using Cons by simp
      have k1: "\<not> strings_Contains (drop 6 cs) ''{{''"
        unfolding d using less.prems(1) Contains_drop [of 7 c] by blast
      have k2: "\<not> strings_Contains (drop 6 cs) ''{<input>''"
        unfolding d using less.prems(2) Contains_drop [of 7 c] by blast
      have "length (drop 6 cs) < length c" using Cons by simp
      from less.hyps [OF this k1 k2, of "[]"]
      obtain ns where ns: "parse_text [] (ReplaceAll_input (drop 6 cs) ''{{.Input}}'') = Parsed ns"
        "concat (map (exec_node input) ns) = ReplaceAll_input (drop 6 cs) input"
        by auto
      show ?thesis
        using True Cons ns by (simp add: exec_text_node)
    next
      case False
      have k1: "\<not> strings_Contains cs ''{{''" and k2: "\<not> strings_Contains cs ''{<input>''"
        using less.prems Cons by auto
      have len: "length cs < length c" using Cons by simp
      show ?thesis
      proof (cases "ReplaceAll_input cs ''{{.Input}}''")
        case Nil
        then have "cs = []" by (simp add: Replace_Nil_iff)
        then show ?thesis using False Cons by (simp add: exec_text_node)
      next
        case (Cons d rest)
        have nb: "\<not> (x = CHR ''{'' \<and> d = CHR ''{'')"
        proof
          assume b: "x = CHR ''{'' \<and> d = CHR ''{''"
          show False
          proof (cases "prefix ''<input>'' cs")
            case True
            then have "prefix ''{<input>'' c" using b \<open>c = x # cs\<close> by simp
            then show False using less.prems(2) Contains_prefix by blast
          next
            case False
            then have "hd cs = d \<and> cs \<noteq> []" using Cons by (cases cs) (auto split: if_splits)
            then have "prefix ''{{'' c" using b \<open>c = x # cs\<close> by (cases cs) auto
            then show False using less.prems(1) Contains_prefix by blast
          qed
        qed
        from less.hyps [OF len k1 k2, of "x # acc"]
        obtain ns where ns: "parse_text (x # acc) (ReplaceAll_input cs ''{{.Input}}'') = Parsed ns"
          "concat (map (exec_node input) ns) = rev (x # acc) @ ReplaceAll_input cs input"
          by auto
        show ?thesis
          using False \<open>c = x # cs\<close> Cons ns nb by auto
      qed
    qed
  qed
qed

text \<open>
  Claim C7, amended: for every content that holds no left delimiter \<open>{{\<close> and no brace
  just before a placeholder, and for every resolved input, the prompt is the content with
  every placeholder replaced by the input as it is, in one pass from left to right: a
  placeholder within the input stays as it is, a content without a placeholder (the empty
  one too) renders to itself, and all placeholders receive the same input.
\<close>

theorem placeholder_substitution_literal:
  assumes "length args \<ge> 3"
      and "loadTemplate fs (args ! 2) = Some tpl"
      and "resolve_input cap args = (evs, Inr (input, src))"
      and "\<not> strings_Contains (Template tpl) ''{{''"
      and "\<not> strings_Contains (Template tpl) ''{<input>''"
  shows "generatePrompt eng cap fs args =
           (evs @ [ClipboardWrite (ReplaceAll_input (Template tpl) input)],
            Inr \<lparr>prompt = ReplaceAll_input (Template tpl) input,
                 from_version = Version tpl, source = src,
                 copied = clipboard_WriteAll cap (ReplaceAll_input (Template tpl) input)\<rparr>)"
proof -
  from parse_plain_content [OF assms(4,5), of "[]" input]
  obtain ns where ns:
    "parse_text [] (ReplaceAll_input (Template tpl) ''{{.Input}}'') = Parsed ns"
    "concat (map (exec_node input) ns) = ReplaceAll_input (Template tpl) input"
    by auto
  have p: "template_Parse eng (ReplaceAll_input (Template tpl) ''{{.Input}}'') = Inr (Nodes ns)"
    using ns(1) by (simp add: template_Parse_def)
  have e: "template_Execute eng (Nodes ns) input = Inr (ReplaceAll_input (Template tpl) input)"
    using ns(2) by (simp add: template_Execute_def)
  show ?thesis
    using assms(1,2,3) p e by (simp add: generatePrompt_def Let_def)
qed

theorem placeholder_substitution_literal_witness:
  "loadTemplate (store [(''brief.json'', JSON brief_v1)])
       ([''promptgen'', ''generate'', ''brief'', ''hello''] ! 2) = Some brief_v1
   \<and> resolve_input no_editor_full_clipboard [''promptgen'', ''generate'', ''brief'', ''hello'']
       = ([], Inr (''hello'', FromArgument))
   \<and> ReplaceAll_input (Template brief_v1) ''hello'' = ''Summarize:'' @ [CHR 0x0A] @ ''hello''
   \<and> ReplaceAll_input ''<input>, <input>'' ''a <input>'' = ''a <input>, a <input>''
   \<and> generatePrompt no_engine no_editor_full_clipboard (store [(''brief.json'', JSON brief_v1)])
        [''promptgen'', ''generate'', ''brief'', ''hello'']
       = ([ClipboardWrite (''Summarize:'' @ [CHR 0x0A] @ ''hello'')],
          Inr \<lparr>prompt = ''Summarize:'' @ [CHR 0x0A] @ ''hello'', from_version = 1,
               source = FromArgument, copied = True\<rparr>)"
proof -
  let ?args = "[''promptgen'', ''generate'', ''brief'', ''hello'']"
  let ?fs = "store [(''brief.json'', JSON brief_v1)]"
  have h1: "length ?args \<ge> 3" by simp
  have h2: "loadTemplate ?fs (?args ! 2) = Some brief_v1" by code_simp
  have h3: "resolve_input no_editor_full_clipboard ?args = ([], Inr (''hello'', FromArgument))"
    by code_simp
  have h4: "\<not> strings_Contains (Template brief_v1) ''{{''" by code_simp
  have h5: "\<not> strings_Contains (Template brief_v1) ''{<input>''" by code_simp
  have r: "ReplaceAll_input (Template brief_v1) ''hello'' = ''Summarize:'' @ [CHR 0x0A] @ ''hello''"
    by code_simp
  have r2: "ReplaceAll_input ''<input>, <input>'' ''a <input>'' = ''a <input>, a <input>''"
    by code_simp
  have v: "Version brief_v1 = 1" by code_simp
  have w: "clipboard_WriteAll no_editor_full_clipboard (''Summarize:'' @ [CHR 0x0A] @ ''hello'')"
    by code_simp
  from placeholder_substitution_literal [OF h1 h2 h3 h4 h5, of no_engine] h2 h3 r r2 v w
  show ?thesis by simp
qed

subsection \<open>Parsing before rendering\<close>













subsection \<open>Names that share a prefix, names that hold the version mark\<close>

text \<open>
  Claim C2: \<^verbatim>\<open>delete\<close> of a name removes the records of that name and of no other
  template, and answers that there is no such template when the name has no record. The
  pattern of \<^verbatim>\<open>deleteTemplate\<close> is the name followed by a star, so it takes the files
  of every template whose name starts with the name given. In the directory that holds
  \<open>sum\<close> and \<open>summary\<close>, \<^verbatim>\<open>delete sum\<close> removes the four files; and where only
  \<open>summary\<close> is stored, \<^verbatim>\<open>delete sum\<close> does not answer that no such template is
  found, it removes \<open>summary\<close>.
\<close>

theorem delete_removes_templates_sharing_prefix:
  "files (fst (addTemplate (fst (addTemplate (store []) ''sum'' (Inr ''Q: <input>'')))
        ''summary'' (Inr ''Summarize: <input>''))) = files two_templates
   \<and> loadTemplate two_templates ''summary'' = Some summary_v1
   \<and> snd (deleteTemplate two_templates [''promptgen'', ''delete'', ''sum'']) = Deleted []
   \<and> files (fst (deleteTemplate two_templates [''promptgen'', ''delete'', ''sum''])) = []
   \<and> loadTemplate (fst (deleteTemplate two_templates [''promptgen'', ''delete'', ''sum'']))
        ''summary'' = None
   \<and> snd (deleteTemplate (store [(''summary_v1.json'', JSON summary_v1),
            (''summary.json'', JSON summary_v1)]) [''promptgen'', ''delete'', ''sum'']) = Deleted []
   \<and> files (fst (deleteTemplate (store [(''summary_v1.json'', JSON summary_v1),
            (''summary.json'', JSON summary_v1)]) [''promptgen'', ''delete'', ''sum''])) = []"
  by code_simp

text \<open>
  Claim C9: the listing has one entry, name and latest version, for each template of the
  store. \<^verbatim>\<open>listTemplates\<close> skips every file whose name holds \<open>_v\<close>, which is meant
  for the version records and also takes the pointer of a template whose own name holds
  \<open>_v\<close>. After \<^verbatim>\<open>add\<close> of \<open>my_video\<close> the template is there for \<^verbatim>\<open>review\<close>,
  and the listing is empty.
\<close>

theorem template_with_version_mark_not_listed:
  "snd (addTemplate (store []) ''my_video'' (Inr ''Describe: <input>'')) = AddSaved True
   \<and> reviewTemplate video_store [''promptgen'', ''review'', ''my_video'']
       = Reviewed 1 ''Describe: <input>''
   \<and> listTemplates video_store = Templates []"
  by code_simp

text \<open>
  Claim C6: after \<^verbatim>\<open>add\<close> of a fresh name and \<open>N\<close> updates, the latest version is
  \<open>1 + N\<close> and the versions listed are those from 1 to \<open>1 + N\<close>. \<^verbatim>\<open>listVersions\<close>
  splits the name of each version record at \<open>_v\<close> and skips it unless there are two
  pieces, so the records of a name that holds \<open>_v\<close> are all skipped. After \<^verbatim>\<open>add\<close>
  of \<open>my_video\<close> to an empty directory (\<open>N = 0\<close>), the record of version 1 is
  there and the list of versions is empty; after one update (\<open>N = 1\<close>) it is empty
  still.
\<close>

theorem versions_of_name_with_version_mark_not_listed:
  "snd (addTemplate (store []) ''my_video'' (Inr ''Describe: <input>'')) = AddSaved True
   \<and> map fst (files video_store) = [''my_video_v1.json'', ''my_video.json'']
   \<and> loadTemplateVersion video_store ''my_video'' 1
       = Some \<lparr>Name = ''my_video'', Version = 1, Template = ''Describe: <input>''\<rparr>
   \<and> Split_v (strings_TrimSuffix ''my_video_v1.json'' ''.json'') = [''my'', ''ideo'', ''1'']
   \<and> listVersions video_store [''promptgen'', ''versions'', ''my_video''] = Versions []
   \<and> snd (updateTemplate video_store [''promptgen'', ''update'', ''my_video'']
        (Inr ''Depict: <input>'')) = Updated 2 True
   \<and> listVersions (fst (updateTemplate video_store [''promptgen'', ''update'', ''my_video'']
        (Inr ''Depict: <input>''))) [''promptgen'', ''versions'', ''my_video''] = Versions []"
  by code_simp

subsection \<open>What \<^verbatim>\<open>delete\<close> removes\<close>

text \<open>
  When the directory can be listed and every file can be removed, \<^verbatim>\<open>delete\<close> leaves
  no file that matches its pattern, the name followed by anything and \<open>.json\<close>, and
  leaves every other file as it was. The pointer and the version records of the name
  match the pattern; so do those of every name of which it is a prefix.
\<close>

lemma Glob_set:
  "set (filepath_Glob fs pre suf) =
     (if fails fs ReadDir then {} else {f \<in> fst ` set (files fs). glob_match pre suf f})"
  by (auto simp: filepath_Glob_def)

text \<open>The digits of a version hold neither the version mark nor a path separator.\<close>

lemma digit_char_neq:
  assumes "d < 10"
  shows "digit_char d \<noteq> CHR ''_''" and "digit_char d \<noteq> CHR ''/''"
proof -
  have "of_char (digit_char d) = 48 + d"
    using assms by (simp add: digit_char_def)
  then show "digit_char d \<noteq> CHR ''_''" and "digit_char d \<noteq> CHR ''/''"
    using assms by auto
qed

lemma fmt_nat_chars: "CHR ''_'' \<notin> set (fmt_nat n) \<and> CHR ''/'' \<notin> set (fmt_nat n)"
proof (induction n rule: fmt_nat.induct)
  case (1 n)
  show ?case
  proof (cases "n < 10")
    case True
    then show ?thesis
      using digit_char_neq [of n] by (subst (1 2) fmt_nat.simps) auto
  next
    case False
    have "n mod 10 < 10" by simp
    then show ?thesis
      using False 1 digit_char_neq [of "n mod 10"] by (subst (1 2) fmt_nat.simps) auto
  qed
qed

lemma fmt_d_chars:
  "0 \<le> v \<Longrightarrow> CHR ''_'' \<notin> set (fmt_d v) \<and> CHR ''/'' \<notin> set (fmt_d v)"
  by (simp add: fmt_d_def fmt_nat_chars)

lemma fmt_d_no_slash: "CHR ''/'' \<notin> set (fmt_d v)"
  by (simp add: fmt_d_def fmt_nat_chars)

lemma fails_remove: "os_Remove fs f = Some fs1 \<Longrightarrow> fails fs1 = fails fs"
  by (auto simp: os_Remove_def split: if_splits)

lemma remove_each_removed:
  assumes "\<forall>f \<in> set fl. \<not> fails fs (Remove f)" and "k \<in> set fl"
  shows "map_of (files (fst (remove_each fs fl))) k = None"
  using assms
proof (induction fl arbitrary: fs)
  case Nil
  then show ?case by simp
next
  case (Cons f rest)
  show ?case
  proof (cases "os_Remove fs f")
    case None
    then have absent: "map_of (files fs) f = None"
      using Cons.prems(1) by (auto simp: os_Remove_def split: if_splits)
    have r: "fst (remove_each fs (f # rest)) = fst (remove_each fs rest)"
      using None by (cases "remove_each fs rest") simp
    show ?thesis
    proof (cases "k \<in> set rest")
      case True
      then show ?thesis unfolding r using Cons.IH [of fs] Cons.prems(1) by simp
    next
      case False
      then have "k = f" using Cons.prems(2) by simp
      then show ?thesis unfolding r using remove_each_other [OF False, of fs] absent by simp
    qed
  next
    case (Some fs1)
    have r: "fst (remove_each fs (f # rest)) = fst (remove_each fs1 rest)"
      using Some by simp
    have fl: "\<forall>g \<in> set rest. \<not> fails fs1 (Remove g)"
      using Cons.prems(1) fails_remove [OF Some] by simp
    have gone: "map_of (files fs1) f = None"
      using Some by (auto simp: os_Remove_def delete_conv' split: if_splits)
    show ?thesis
    proof (cases "k \<in> set rest")
      case True
      then show ?thesis unfolding r using Cons.IH [OF fl] by simp
    next
      case False
      then have "k = f" using Cons.prems(2) by simp
      then show ?thesis unfolding r using remove_each_other [OF False, of fs1] gone by simp
    qed
  qed
qed

lemma delete_removes_pattern:
  assumes "length args \<ge> 3" and "plain_name (args ! 2)"
      and "\<not> fails fs MkdirAll" and "\<not> fails fs ReadDir"
      and "\<forall>f. \<not> fails fs (Remove f)"
  shows "map_of (files (fst (deleteTemplate fs args))) f
           = (if glob_match (args ! 2) ''.json'' f then None else map_of (files fs) f)"
proof -
  let ?found = "filepath_Glob fs (args ! 2) ''.json''"
  have fnd: "set ?found = {f \<in> fst ` set (files fs). glob_match (args ! 2) ''.json'' f}"
    using assms(4) by (simp add: Glob_set)
  have d: "fst (deleteTemplate fs args) = fst (remove_each fs ?found)"
    using assms(1,3)
    by (auto simp: deleteTemplate_def Let_def ensureTemplateDir_def split_beta)
  show ?thesis
  proof (cases "f \<in> set ?found")
    case True
    then show ?thesis
      unfolding d using remove_each_removed [of ?found fs f] assms(5) fnd by auto
  next
    case False
    have "map_of (files fs) f = None" if "glob_match (args ! 2) ''.json'' f"
    proof -
      from that False have "f \<notin> fst ` set (files fs)" using fnd by auto
      then show ?thesis by (simp add: map_of_eq_None_iff)
    qed
    then show ?thesis
      unfolding d using remove_each_other [OF False, of fs] by auto
  qed
qed

lemma own_records_match:
  "glob_match n ''.json'' (getTemplatePath n)"
  "flat_name n \<Longrightarrow> glob_match n ''.json'' (getTemplateVersionPath n v)"
  using fmt_d_no_slash [of v]
  by (auto simp: glob_match_def getTemplatePath_def getTemplateVersionPath_def suffix_def flat_name_def)

subsection \<open>The chain of versions\<close>

text \<open>
  After \<^verbatim>\<open>add\<close> of a name that has no version record yet and \<open>N\<close> runs of
  \<^verbatim>\<open>update\<close>, the pointer holds version \<open>1 + N\<close>; and when the name does not hold
  the version mark \<open>_v\<close>, the versions listed are those from 1 to \<open>1 + N\<close>, each by
  its digits.
\<close>

lemma Split_v_no_mark: "CHR ''_'' \<notin> set d \<Longrightarrow> Split_v d = [d]"
  by (induction d rule: Split_v.induct) auto

lemma Split_v_version:
  assumes "\<not> strings_Contains n ''_v''" and "CHR ''_'' \<notin> set d"
  shows "Split_v (n @ ''_v'' @ d) = [n, d]"
  using assms
proof (induction n)
  case Nil
  then show ?case by (simp add: Split_v_no_mark)
next
  case (Cons x n')
  have ih: "Split_v (n' @ ''_v'' @ d) = [n', d]"
    using Cons by auto
  show ?case
  proof (cases n')
    case Nil
    then show ?thesis using ih by auto
  next
    case (Cons y n'')
    have "\<not> (x = CHR ''_'' \<and> y = CHR ''v'')"
      using Cons.prems(1) Cons by auto
    then show ?thesis using ih Cons by auto
  qed
qed

lemma keys_write:
  "os_WriteFile fs p d = Some fs' \<Longrightarrow>
     fst ` set (files fs') = insert p (fst ` set (files fs)) \<and> fails fs' = fails fs"
  by (clarsimp simp: os_WriteFile_def AList.dom_update split: if_splits)

lemma version_path_matches:
  "0 \<le> v \<Longrightarrow> glob_match (n @ ''_v'') ''.json'' (getTemplateVersionPath n v)"
  using fmt_d_chars [of v]
  by (simp add: glob_match_def getTemplateVersionPath_def suffix_def)

lemma latest_path_no_match: "\<not> glob_match (n @ ''_v'') ''.json'' (getTemplatePath n)"
  by (simp add: glob_match_def getTemplatePath_def)


lemma update_step:
  assumes "updateTemplate fs [p, ''update'', n] (Inr c) = (fs', Updated v True)"
      and "map_of (files fs) (getTemplatePath n) = Some (JSON t)"
      and "1 \<le> Version t" and "Version t < 2 ^ 63 - 1"
      and "\<not> fails fs ReadDir"
      and "set (filepath_Glob fs (n @ ''_v'') ''.json'') = getTemplateVersionPath n ` {1..Version t}"
  shows "v = Version t + 1
       \<and> (\<exists>t'. map_of (files fs') (getTemplatePath n) = Some (JSON t') \<and> Version t' = v)
       \<and> \<not> fails fs' ReadDir
       \<and> set (filepath_Glob fs' (n @ ''_v'') ''.json'') = getTemplateVersionPath n ` {1..v}"
proof -
  have ld: "loadTemplate fs n = Some t"
    using assms(1,2)
    by (auto simp: updateTemplate_def loadTemplate_def os_ReadFile_def split: option.splits if_splits)
  have inc: "int64_inc (Version t) = Version t + 1"
    using assms(4) by (simp add: int64_inc_def)
  let ?d = "json_MarshalIndent (t\<lparr>Template := c, Version := Version t + 1\<rparr>)"
  obtain fs1 where w1: "os_WriteFile fs (getTemplateVersionPath n (Version t + 1)) ?d = Some fs1"
    and w2: "os_WriteFile fs1 (getTemplatePath n) ?d = Some fs'"
    and v: "v = Version t + 1"
    using assms(1) ld inc
    by (auto simp: updateTemplate_def Let_def split: option.splits if_splits)
  have k1: "fst ` set (files fs1) = insert (getTemplateVersionPath n (Version t + 1)) (fst ` set (files fs))"
    and f1: "fails fs1 = fails fs"
    using keys_write [OF w1] by auto
  have k2: "fst ` set (files fs') = insert (getTemplatePath n) (fst ` set (files fs1))"
    and f2: "fails fs' = fails fs1"
    using keys_write [OF w2] by auto
  have "map_of (files fs') (getTemplatePath n) = Some ?d"
    using w2 by (auto simp: os_WriteFile_def update_conv' split: if_splits)
  then have l: "\<exists>t'. map_of (files fs') (getTemplatePath n) = Some (JSON t') \<and> Version t' = v"
    using v by (simp add: json_MarshalIndent_def)
  have g0: "{f \<in> fst ` set (files fs). glob_match (n @ ''_v'') ''.json'' f}
      = getTemplateVersionPath n ` {1..Version t}"
    using assms(5,6) by (simp add: Glob_set)
  have m: "glob_match (n @ ''_v'') ''.json'' (getTemplateVersionPath n (Version t + 1))"
    using assms(3) by (intro version_path_matches) simp
  have "{f \<in> fst ` set (files fs'). glob_match (n @ ''_v'') ''.json'' f}
      = insert (getTemplateVersionPath n (Version t + 1))
          {f \<in> fst ` set (files fs). glob_match (n @ ''_v'') ''.json'' f}"
    unfolding k2 k1 using m latest_path_no_match [of n] by auto
  also have "\<dots> = getTemplateVersionPath n ` insert (Version t + 1) {1..Version t}"
    unfolding g0 by simp
  also have "insert (Version t + 1) {1..Version t} = {1..Version t + 1}"
    using assms(3) by auto
  finally have g: "set (filepath_Glob fs' (n @ ''_v'') ''.json'')
      = getTemplateVersionPath n ` {1..Version t + 1}"
    using assms(5) f1 f2 by (simp add: Glob_set)
  show ?thesis
    using v l g assms(5) f1 f2 by simp
qed

lemma add_step:
  assumes "addTemplate fs line (Inr c) = (fs', AddSaved True)"
      and "\<not> fails fs ReadDir"
      and "filepath_Glob fs (strings_TrimSpace line @ ''_v'') ''.json'' = []"
  shows "(\<exists>t. map_of (files fs') (getTemplatePath (strings_TrimSpace line)) = Some (JSON t)
            \<and> Version t = 1)
       \<and> \<not> fails fs' ReadDir
       \<and> set (filepath_Glob fs' (strings_TrimSpace line @ ''_v'') ''.json'')
           = getTemplateVersionPath (strings_TrimSpace line) ` {1..1}"
proof -
  let ?n = "strings_TrimSpace line"
  let ?d = "json_MarshalIndent \<lparr>Name = ?n, Version = 1, Template = c\<rparr>"
  obtain fs1 where w1: "os_WriteFile fs (getTemplateVersionPath ?n 1) ?d = Some fs1"
    and w2: "os_WriteFile fs1 (getTemplatePath ?n) ?d = Some fs'"
    using assms(1)
    by (auto simp: addTemplate_def Let_def split: option.splits if_splits)
  have k1: "fst ` set (files fs1) = insert (getTemplateVersionPath ?n 1) (fst ` set (files fs))"
    and f1: "fails fs1 = fails fs"
    using keys_write [OF w1] by auto
  have k2: "fst ` set (files fs') = insert (getTemplatePath ?n) (fst ` set (files fs1))"
    and f2: "fails fs' = fails fs1"
    using keys_write [OF w2] by auto
  have "map_of (files fs') (getTemplatePath ?n) = Some ?d"
    using w2 by (auto simp: os_WriteFile_def update_conv' split: if_splits)
  then have l: "\<exists>t. map_of (files fs') (getTemplatePath ?n) = Some (JSON t) \<and> Version t = 1"
    by (simp add: json_MarshalIndent_def)
  have "set (filepath_Glob fs (?n @ ''_v'') ''.json'') = {}"
    using assms(3) by simp
  then have g0: "{f \<in> fst ` set (files fs). glob_match (?n @ ''_v'') ''.json'' f} = {}"
    using assms(2) by (simp add: Glob_set)
  have m: "glob_match (?n @ ''_v'') ''.json'' (getTemplateVersionPath ?n 1)"
    by (intro version_path_matches) simp
  have "{f \<in> fst ` set (files fs'). glob_match (?n @ ''_v'') ''.json'' f}
      = insert (getTemplateVersionPath ?n 1)
          {f \<in> fst ` set (files fs). glob_match (?n @ ''_v'') ''.json'' f}"
    unfolding k2 k1 using m latest_path_no_match [of ?n] by auto
  then have "set (filepath_Glob fs' (?n @ ''_v'') ''.json'') = getTemplateVersionPath ?n ` {1..1}"
    unfolding g0 using assms(2) f1 f2 by (simp add: Glob_set)
  then show ?thesis
    using l assms(2) f1 f2 by simp
qed

lemma update_each_chain:
  assumes "update_each fs n cs = Some fs'"
      and "map_of (files fs) (getTemplatePath n) = Some (JSON t)"
      and "1 \<le> Version t" and "Version t + int (length cs) < 2 ^ 63"
      and "\<not> fails fs ReadDir"
      and "set (filepath_Glob fs (n @ ''_v'') ''.json'') = getTemplateVersionPath n ` {1..Version t}"
  shows "\<exists>t'. map_of (files fs') (getTemplatePath n) = Some (JSON t')
           \<and> Version t' = Version t + int (length cs)
           \<and> \<not> fails fs' ReadDir
           \<and> set (filepath_Glob fs' (n @ ''_v'') ''.json'')
               = getTemplateVersionPath n ` {1..Version t'}"
  using assms
proof (induction cs arbitrary: fs t)
  case Nil
  then show ?case by simp
next
  case (Cons c cs)
  from Cons.prems(1) obtain fs1 v where
    u: "updateTemplate fs [''promptgen'', ''update'', n] (Inr c) = (fs1, Updated v True)"
    and r: "update_each fs1 n cs = Some fs'"
    by (auto split: prod.splits update_result.splits bool.splits)
  have lt: "Version t < 2 ^ 63 - 1" using Cons.prems(4) by simp
  from update_step [OF u Cons.prems(2,3) lt Cons.prems(5,6)]
  obtain t1 where s: "v = Version t + 1"
    "map_of (files fs1) (getTemplatePath n) = Some (JSON t1)" "Version t1 = v"
    "\<not> fails fs1 ReadDir"
    "set (filepath_Glob fs1 (n @ ''_v'') ''.json'') = getTemplateVersionPath n ` {1..v}"
    by auto
  have "\<exists>t'. map_of (files fs') (getTemplatePath n) = Some (JSON t')
           \<and> Version t' = Version t1 + int (length cs)
           \<and> \<not> fails fs' ReadDir
           \<and> set (filepath_Glob fs' (n @ ''_v'') ''.json'')
               = getTemplateVersionPath n ` {1..Version t'}"
  proof (rule Cons.IH [OF r s(2)])
    show "1 \<le> Version t1" using s(1,3) Cons.prems(3) by simp
    show "Version t1 + int (length cs) < 2 ^ 63" using s(1,3) Cons.prems(4) by simp
    show "\<not> fails fs1 ReadDir" by (rule s(4))
    show "set (filepath_Glob fs1 (n @ ''_v'') ''.json'') = getTemplateVersionPath n ` {1..Version t1}"
      using s(3,5) by simp
  qed
  then show ?case using s(1,3) by auto
qed

lemma version_of_record:
  assumes "\<not> strings_Contains n ''_v''" and "0 \<le> v"
  shows "Split_v (strings_TrimSuffix (getTemplateVersionPath n v) ''.json'') = [n, fmt_d v]"
proof -
  have "strings_TrimSuffix (getTemplateVersionPath n v) ''.json'' = n @ ''_v'' @ fmt_d v"
    by (simp add: strings_TrimSuffix_def getTemplateVersionPath_def suffix_def)
  then show ?thesis
    using Split_v_version [OF assms(1), of "fmt_d v"] fmt_d_chars [OF assms(2)] by simp
qed

lemma listVersions_chain:
  assumes "\<not> strings_Contains n ''_v''" and "1 \<le> k"
      and "set (filepath_Glob fs (n @ ''_v'') ''.json'') = getTemplateVersionPath n ` {1..k}"
  shows "\<exists>vs. listVersions fs [p, ''versions'', n] = Versions vs \<and> set vs = fmt_d ` {1..k}"
proof -
  let ?found = "filepath_Glob fs (n @ ''_v'') ''.json''"
  let ?g = "\<lambda>base. let verStr = strings_TrimSuffix base ''.json''; verParts = Split_v verStr
              in if length verParts \<noteq> 2 then [] else [verParts ! 1]"
  have ne: "?found \<noteq> []"
  proof
    assume "?found = []"
    then have "getTemplateVersionPath n ` {1..k} = {}" using assms(3) by simp
    then show False using assms(2) by simp
  qed
  have g: "?g f = [fmt_d v]" if "f = getTemplateVersionPath n v" "1 \<le> v" for f v
    using that version_of_record [OF assms(1), of v] by (simp add: Let_def)
  have "set (concat (map ?g ?found)) = (\<Union>f \<in> set ?found. set (?g f))"
    by simp
  also have "\<dots> = (\<Union>f \<in> getTemplateVersionPath n ` {1..k}. set (?g f))"
    unfolding assms(3) ..
  also have "\<dots> = fmt_d ` {1..k}"
    using g by auto
  finally have "set (concat (map ?g ?found)) = fmt_d ` {1..k}" .
  then show ?thesis
    using ne by (simp add: listVersions_def Let_def)
qed

lemma versions_after_create_and_updates:
  assumes "addTemplate fs line (Inr c) = (fs1, AddSaved True)"
      and "update_each fs1 (strings_TrimSpace line) cs = Some fs2"
      and "\<not> fails fs ReadDir"
      and "filepath_Glob fs (strings_TrimSpace line @ ''_v'') ''.json'' = []"
      and "\<not> strings_Contains (strings_TrimSpace line) ''_v''"
      and "1 + int (length cs) < 2 ^ 63"
      and "plain_name (strings_TrimSpace line)"
  shows "\<exists>t vs. map_of (files fs2) (getTemplatePath (strings_TrimSpace line)) = Some (JSON t)
           \<and> Version t = 1 + int (length cs)
           \<and> listVersions fs2 [p, ''versions'', strings_TrimSpace line] = Versions vs
           \<and> set vs = fmt_d ` {1..1 + int (length cs)}"
proof -
  let ?n = "strings_TrimSpace line"
  from add_step [OF assms(1,3,4)]
  obtain t1 where a: "map_of (files fs1) (getTemplatePath ?n) = Some (JSON t1)"
    "\<not> fails fs1 ReadDir"
    "set (filepath_Glob fs1 (?n @ ''_v'') ''.json'') = getTemplateVersionPath ?n ` {1..Version t1}"
    and v1: "Version t1 = 1"
    by auto
  have "\<exists>t'. map_of (files fs2) (getTemplatePath ?n) = Some (JSON t')
           \<and> Version t' = Version t1 + int (length cs)
           \<and> \<not> fails fs2 ReadDir
           \<and> set (filepath_Glob fs2 (?n @ ''_v'') ''.json'')
               = getTemplateVersionPath ?n ` {1..Version t'}"
    using assms(6) v1 by (intro update_each_chain [OF assms(2) a(1) _ _ a(2) a(3)]) auto
  then obtain t where t: "map_of (files fs2) (getTemplatePath ?n) = Some (JSON t)"
    "Version t = 1 + int (length cs)"
    "set (filepath_Glob fs2 (?n @ ''_v'') ''.json'') = getTemplateVersionPath ?n ` {1..Version t}"
    using v1 by auto
  have "1 \<le> Version t" using t(2) by simp
  from listVersions_chain [OF assms(5) this t(3), of p]
  obtain vs where "listVersions fs2 [p, ''versions'', ?n] = Versions vs" "set vs = fmt_d ` {1..Version t}"
    by auto
  then show ?thesis using t(1,2) by auto
qed

end
